theory Spec2Isabelle
  imports Complex_Main
begin

section \<open>Temporal::Beats (libs/temporal/temporal/beats.h)\<close>

text \<open>
  Modelled from the spec: \<open>Temporal::ticks_per_beat\<close> is declared in
  \<open>temporal/types.h\<close>, which is not among the sources; the specification fixes the
  resolution at 1920 ticks per quarter note. It is taken to be an \<open>int32_t\<close>, as
  \<open>PPQN\<close>, which is initialised from it, is.
\<close>

definition ticks_per_beat :: int where
  "ticks_per_beat = 1920"

definition PPQN :: int where
  "PPQN = ticks_per_beat"

text \<open>
  Modelled from the spec: \<open>enum RoundMode\<close> is declared in \<open>temporal/types.h\<close> as
  well. The specification names two round-down variants, round-to-nearest and two
  round-up variants; \<open>round_to_subdivision\<close> only looks at the sign of the
  enumerator and compares it with \<open>RoundUpMaybe\<close> and \<open>RoundDownAlways\<close>.
\<close>

datatype RoundMode =
  RoundDownMaybe | RoundDownAlways | RoundNearest | RoundUpAlways | RoundUpMaybe

fun RoundMode_value :: "RoundMode \<Rightarrow> int" where
  "RoundMode_value RoundDownMaybe = -2"
| "RoundMode_value RoundDownAlways = -1"
| "RoundMode_value RoundNearest = 0"
| "RoundMode_value RoundUpAlways = 1"
| "RoundMode_value RoundUpMaybe = 2"

datatype error = DivisionByZero | AssertionFailed | Deadlock

text \<open>
  The private fields \<open>_beats\<close> and \<open>_ticks\<close>. Both are \<open>int32_t\<close> in the source;
  they are modelled as \<open>int\<close>. Signed overflow is undefined in C++, so the model
  describes the code on the runs where every signed intermediate value fits 32 bits;
  the conversions to and from \<open>uint32_t\<close>, which are defined, are written out.
\<close>

record Beats =
  m_beats :: int
  m_ticks :: int

text \<open>The first loop of \<open>normalize\<close>: borrow beats while the ticks are negative.\<close>

function normalize_borrow :: "int \<Rightarrow> int \<Rightarrow> int \<times> int" where
  "normalize_borrow b t =
     (if t < 0 then normalize_borrow (b - 1) (t + PPQN) else (b, t))"
  by pat_completeness auto
termination
  by (relation "measure (\<lambda>(b, t). nat (- t))") (auto simp: PPQN_def ticks_per_beat_def)

declare normalize_borrow.simps [simp del]

text \<open>The second loop: carry whole beats out of the (absolute) ticks.\<close>

function normalize_carry :: "int \<Rightarrow> int \<Rightarrow> int \<times> int" where
  "normalize_carry beats ticks =
     (if ticks \<ge> PPQN then normalize_carry (beats + 1) (ticks - PPQN) else (beats, ticks))"
  by pat_completeness auto
termination
  by (relation "measure (\<lambda>(b, t). nat t)") (auto simp: PPQN_def ticks_per_beat_def)

declare normalize_carry.simps [simp del]

definition normalize :: "Beats \<Rightarrow> Beats" where
  "normalize v =
     (let (b1, t1) = (if m_beats v \<ge> 0 then normalize_borrow (m_beats v) (m_ticks v)
                      else (m_beats v, m_ticks v));
          sign = (if b1 < 0 then - 1 else 1);
          (beats, ticks) = normalize_carry \<bar>b1\<bar> \<bar>t1\<bar>
      in \<lparr>m_beats = sign * beats, m_ticks = sign * ticks\<rparr>)"

text \<open>The constructor \<open>Beats(int32_t b, int32_t t)\<close>.\<close>

definition Beats :: "int \<Rightarrow> int \<Rightarrow> Beats" where
  "Beats b t = normalize \<lparr>m_beats = b, m_ticks = t\<rparr>"

definition Beats_beats :: "int \<Rightarrow> Beats" where
  "Beats_beats beats = Beats beats 0"

definition Beats_ticks :: "int \<Rightarrow> Beats" where
  "Beats_ticks ticks = Beats 0 ticks"

definition get_beats :: "Beats \<Rightarrow> int" where
  "get_beats v = m_beats v"

definition get_ticks :: "Beats \<Rightarrow> int" where
  "get_ticks v = m_ticks v"

definition to_ticks :: "Beats \<Rightarrow> int" where
  "to_ticks v = m_beats v * PPQN + m_ticks v"

text \<open>
  Conversions between the integer types of the source. \<open>u32\<close> is the conversion to
  \<open>uint32_t\<close> (reduction modulo \<open>2^32\<close>); \<open>i32\<close> is the conversion of such a
  value to \<open>int32_t\<close> (two's complement, which is what the compilers do and what
  C++20 prescribes); \<open>c_div\<close> is the division of C on \<open>int\<close>, which truncates
  towards zero.
\<close>

definition u32 :: "int \<Rightarrow> int" where
  "u32 x = x mod 2 ^ 32"

definition i32 :: "int \<Rightarrow> int" where
  "i32 x = (if x mod 2 ^ 32 < 2 ^ 31 then x mod 2 ^ 32 else x mod 2 ^ 32 - 2 ^ 32)"

definition c_div :: "int \<Rightarrow> int \<Rightarrow> int" where
  "c_div a b = sgn a * sgn b * (\<bar>a\<bar> div \<bar>b\<bar>)"


definition normalize_fits :: "int \<Rightarrow> int \<Rightarrow> bool" where
  "normalize_fits b t =
     (- (2 ^ 31) < b \<and> b < 2 ^ 31 \<and> - (2 ^ 31) < t \<and> t < 2 ^ 31
      \<and> \<bar>b\<bar> + \<bar>t\<bar> div PPQN < 2 ^ 31)"

subsection \<open>Rounding to whole beats\<close>


definition round_up_to_beat :: "Beats \<Rightarrow> Beats" where
  "round_up_to_beat v = (if m_ticks v = 0 then v else Beats (m_beats v + 1) 0)"

definition round_down_to_beat :: "Beats \<Rightarrow> Beats" where
  "round_down_to_beat v = Beats (m_beats v) 0"

subsection \<open>Comparison of two values\<close>

definition Beats_eq :: "Beats \<Rightarrow> Beats \<Rightarrow> bool" where
  "Beats_eq a b = (m_beats a = m_beats b \<and> m_ticks a = m_ticks b)"

definition Beats_lt :: "Beats \<Rightarrow> Beats \<Rightarrow> bool" where
  "Beats_lt a b = (m_beats a < m_beats b \<or> (m_beats a = m_beats b \<and> m_ticks a < m_ticks b))"

definition Beats_le :: "Beats \<Rightarrow> Beats \<Rightarrow> bool" where
  "Beats_le a b = (m_beats a < m_beats b \<or> (m_beats a = m_beats b \<and> m_ticks a \<le> m_ticks b))"

definition Beats_gt :: "Beats \<Rightarrow> Beats \<Rightarrow> bool" where
  "Beats_gt a b = (m_beats a > m_beats b \<or> (m_beats a = m_beats b \<and> m_ticks a > m_ticks b))"

definition Beats_ge :: "Beats \<Rightarrow> Beats \<Rightarrow> bool" where
  "Beats_ge a b = (m_beats a > m_beats b \<or> (m_beats a = m_beats b \<and> m_ticks a \<ge> m_ticks b))"

text \<open>\<open>operator==(int)\<close>.\<close>

definition Beats_eq_int :: "Beats \<Rightarrow> int \<Rightarrow> bool" where
  "Beats_eq_int v beats = (m_beats v = beats)"

subsection \<open>round_to_subdivision\<close>

text \<open>
  The three branches of \<open>round_to_subdivision\<close>, each on the local variables
  \<open>ticks\<close>, \<open>ticks_one_subdivisions_worth\<close> (here \<open>worth\<close>), \<open>mod\<close> and
  \<open>beats\<close>, all \<open>uint32_t\<close>. Each returns the final value of \<open>ticks\<close>.
\<close>

definition subdivision_up :: "RoundMode \<Rightarrow> int \<Rightarrow> int \<Rightarrow> int \<Rightarrow> int" where
  "subdivision_up dir ticks worth mod' =
     (if mod' = 0 \<and> dir = RoundUpMaybe then ticks
      else if mod' = 0 then u32 (ticks + worth)
      else u32 (ticks + u32 (worth - mod')))"

definition subdivision_down :: "RoundMode \<Rightarrow> int \<Rightarrow> int \<Rightarrow> int" where
  "subdivision_down dir ticks worth =
     (let difference0 = ticks mod worth;
          difference = (if difference0 = 0 \<and> dir = RoundDownAlways then worth else difference0)
      in if ticks < difference then u32 (ticks_per_beat - ticks) else u32 (ticks - difference))"

text \<open>
  Round to nearest works in \<open>double\<close>. Every operand is an integer below \<open>2^33\<close>
  or half of one, so \<open>fmod\<close>, the additions, the division by \<open>2.0\<close> and
  \<open>lrint\<close> are exact, and the model computes them on \<open>int\<close> and \<open>real\<close>.
  The branch has an early \<open>return *this\<close>: \<open>Inl\<close> carries that value, \<open>Inr\<close> the
  final \<open>(beats, ticks)\<close>. The source increments and decrements \<open>beats\<close> and
  never reads it again.
\<close>

definition subdivision_nearest :: "Beats \<Rightarrow> int \<Rightarrow> int \<Rightarrow> int \<Rightarrow> Beats + int \<times> int" where
  "subdivision_nearest v ticks worth beats =
     (let rem = ticks mod worth
      in if real_of_int rem > real_of_int worth / 2 then
           (let ticks1 = u32 (ticks + (worth - rem))
            in if ticks1 > u32 ticks_per_beat
               then Inr (u32 (beats + 1), u32 (ticks1 - ticks_per_beat))
               else Inr (beats, ticks1))
         else if rem > 0 then
           (if rem > ticks then
              (if beats = 0 then Inl v
               else Inr (u32 (beats - 1), u32 (ticks_per_beat - rem)))
            else Inr (beats, u32 (ticks - rem)))
         else Inr (beats, ticks))"

text \<open>
  \<open>round_to_subdivision\<close>. A zero divisor in \<open>ticks_per_beat / subdivision\<close> or in
  \<open>ticks % ticks_one_subdivisions_worth\<close> is undefined in C++ (a trap on the usual
  targets): the model returns \<open>DivisionByZero\<close>. The result is
  \<open>Beats::ticks (ticks)\<close>, whose parameter is \<open>int32_t\<close>.
\<close>

definition round_to_subdivision :: "int \<Rightarrow> RoundMode \<Rightarrow> Beats \<Rightarrow> error + Beats" where
  "round_to_subdivision subdivision dir v =
     (if subdivision = 0 then Inl DivisionByZero
      else
        let ticks = u32 (to_ticks v);
            ticks_one_subdivisions_worth = u32 (c_div ticks_per_beat subdivision)
        in if ticks_one_subdivisions_worth = 0 then Inl DivisionByZero
           else
             let mod' = ticks mod ticks_one_subdivisions_worth;
                 beats = u32 (m_beats v)
             in if RoundMode_value dir > 0 then
                  Inr (Beats_ticks (i32 (subdivision_up dir ticks ticks_one_subdivisions_worth mod')))
                else if RoundMode_value dir < 0 then
                  Inr (Beats_ticks (i32 (subdivision_down dir ticks ticks_one_subdivisions_worth)))
                else
                  (case subdivision_nearest v ticks ticks_one_subdivisions_worth beats of
                     Inl this \<Rightarrow> Inr this
                   | Inr (beats', ticks') \<Rightarrow> Inr (Beats_ticks (i32 ticks'))))"

subsection \<open>Comparison with a real number of beats\<close>

text \<open>
  The arithmetic of \<open>double\<close> is that of the reals followed by rounding to the nearest
  representable number. The rounding is the parameter \<open>rnd\<close> of the definitions below;
  conversions of 32-bit integers and \<open>fabs\<close> are exact.
\<close>

definition to_double :: "(real \<Rightarrow> real) \<Rightarrow> Beats \<Rightarrow> real" where
  "to_double rnd v =
     rnd (real_of_int (m_beats v) + rnd (real_of_int (m_ticks v) / real_of_int PPQN))"

definition Beats_eq_double :: "(real \<Rightarrow> real) \<Rightarrow> Beats \<Rightarrow> real \<Rightarrow> bool" where
  "Beats_eq_double rnd v t = (\<bar>rnd (to_double rnd v - t)\<bar> \<le> rnd (1 / real_of_int PPQN))"

definition Beats_lt_double :: "(real \<Rightarrow> real) \<Rightarrow> Beats \<Rightarrow> real \<Rightarrow> bool" where
  "Beats_lt_double rnd v b =
     (let time = to_double rnd v
      in if \<bar>rnd (time - b)\<bar> \<le> rnd (1 / real_of_int PPQN) then False else time < b)"

definition Beats_le_double :: "(real \<Rightarrow> real) \<Rightarrow> Beats \<Rightarrow> real \<Rightarrow> bool" where
  "Beats_le_double rnd v b = (Beats_eq_double rnd v b \<or> Beats_lt_double rnd v b)"

definition Beats_gt_double :: "(real \<Rightarrow> real) \<Rightarrow> Beats \<Rightarrow> real \<Rightarrow> bool" where
  "Beats_gt_double rnd v b =
     (let time = to_double rnd v
      in if \<bar>rnd (time - b)\<bar> \<le> rnd (1 / real_of_int PPQN) then False else time > b)"

definition Beats_ge_double :: "(real \<Rightarrow> real) \<Rightarrow> Beats \<Rightarrow> real \<Rightarrow> bool" where
  "Beats_ge_double rnd v b = (Beats_eq_double rnd v b \<or> Beats_gt_double rnd v b)"

section \<open>ARDOUR::Bundle (libs/ardour/bundle.cc)\<close>

type_synonym PortList = "string list"

text \<open>\<open>struct Channel\<close>: a name and the ports associated with the channel.\<close>

record Channel =
  name :: string
  ports :: PortList

text \<open>
  The three signals of a bundle. Emitting one calls the connected slots at once, in the
  emitting thread.
\<close>

datatype signal = PortsChanged nat | ConfigurationChanged | NameChanged

text \<open>
  The members of \<open>Bundle\<close> that \<open>bundle.cc\<close> works on: \<open>_channel\<close>, \<open>_name\<close>,
  \<open>_ports_are_inputs\<close> and \<open>_channel_mutex\<close> (true while the mutex is held;
  the opaque \<open>_type\<close> tag is left out). \<open>observers\<close> is the state of whatever is
  connected to the signals. A slot receives the signal and the whole state, since it may
  call back into the bundle; it can fail as any call into the bundle can.
\<close>

record 'o Bundle =
  m_channel :: "Channel list"
  m_name :: string
  m_ports_are_inputs :: bool
  m_channel_mutex :: bool
  observers :: 'o

type_synonym 'o slot = "signal \<Rightarrow> 'o Bundle \<Rightarrow> error + 'o Bundle"

text \<open>
  \<open>Glib::Mutex::Lock lm (_channel_mutex)\<close> and the end of its scope. The mutex is
  not recursive: acquiring it while it is held never returns.
\<close>

definition lock :: "'o Bundle \<Rightarrow> error + 'o Bundle" where
  "lock b = (if m_channel_mutex b then Inl Deadlock else Inr (b\<lparr>m_channel_mutex := True\<rparr>))"

definition unlock :: "'o Bundle \<Rightarrow> 'o Bundle" where
  "unlock b = b\<lparr>m_channel_mutex := False\<rparr>"

text \<open>
  \<open>nchannels\<close> returns \<open>uint32_t\<close>; the mutex is released on return. In the
  functions after it an \<open>assert\<close> is a check that ends the call with
  \<open>AssertionFailed\<close>, as in a build that keeps assertions.
\<close>

definition nchannels :: "'o Bundle \<Rightarrow> error + nat" where
  "nchannels b =
     (case lock b of
        Inl e \<Rightarrow> Inl e
      | Inr b1 \<Rightarrow> Inr (length (m_channel b1) mod 2 ^ 32))"

definition channel_ports :: "nat \<Rightarrow> 'o Bundle \<Rightarrow> error + PortList" where
  "channel_ports c b =
     (case nchannels b of
        Inl e \<Rightarrow> Inl e
      | Inr n \<Rightarrow>
          if \<not> c < n then Inl AssertionFailed
          else (case lock b of
                  Inl e \<Rightarrow> Inl e
                | Inr b1 \<Rightarrow> Inr (ports (m_channel b1 ! c))))"

text \<open>\<open>portname.find_first_of (':') != string::npos\<close>.\<close>

definition has_colon :: "string \<Rightarrow> bool" where
  "has_colon portname = (CHR '':'' \<in> set portname)"

definition add_port_to_channel :: "'o slot \<Rightarrow> nat \<Rightarrow> string \<Rightarrow> 'o Bundle \<Rightarrow> error + 'o Bundle" where
  "add_port_to_channel slot ch portname b =
     (case nchannels b of
        Inl e \<Rightarrow> Inl e
      | Inr n \<Rightarrow>
          if \<not> ch < n then Inl AssertionFailed
          else if \<not> has_colon portname then Inl AssertionFailed
          else (case lock b of
                  Inl e \<Rightarrow> Inl e
                | Inr b1 \<Rightarrow>
                    let c = m_channel b1 ! ch;
                        b2 = b1\<lparr>m_channel := (m_channel b1)[ch := c\<lparr>ports := ports c @ [portname]\<rparr>]\<rparr>;
                        b3 = unlock b2
                    in slot (PortsChanged ch) b3))"

text \<open>
  \<open>std::find\<close> as the position of the first equal element (the length of the list for
  \<open>end()\<close>), and \<open>erase\<close> of the element at a position.
\<close>

primrec find_pos :: "'a list \<Rightarrow> 'a \<Rightarrow> nat" where
  "find_pos [] x = 0"
| "find_pos (y # ys) x = (if y = x then 0 else Suc (find_pos ys x))"

definition erase :: "nat \<Rightarrow> 'a list \<Rightarrow> 'a list" where
  "erase i xs = take i xs @ drop (Suc i) xs"

definition remove_port_from_channel :: "'o slot \<Rightarrow> nat \<Rightarrow> string \<Rightarrow> 'o Bundle \<Rightarrow> error + 'o Bundle" where
  "remove_port_from_channel slot ch portname b =
     (case nchannels b of
        Inl e \<Rightarrow> Inl e
      | Inr n \<Rightarrow>
          if \<not> ch < n then Inl AssertionFailed
          else (case lock b of
                  Inl e \<Rightarrow> Inl e
                | Inr b1 \<Rightarrow>
                    let pl = ports (m_channel b1 ! ch);
                        i = find_pos pl portname;
                        changed = (i \<noteq> length pl);
                        b2 = (if changed
                              then b1\<lparr>m_channel :=
                                     (m_channel b1)[ch := (m_channel b1 ! ch)\<lparr>ports := erase i pl\<rparr>]\<rparr>
                              else b1);
                        b3 = unlock b2
                    in if changed then slot (PortsChanged ch) b3 else Inr b3))"

definition set_port :: "'o slot \<Rightarrow> nat \<Rightarrow> string \<Rightarrow> 'o Bundle \<Rightarrow> error + 'o Bundle" where
  "set_port slot ch portname b =
     (case nchannels b of
        Inl e \<Rightarrow> Inl e
      | Inr n \<Rightarrow>
          if \<not> ch < n then Inl AssertionFailed
          else if \<not> has_colon portname then Inl AssertionFailed
          else (case lock b of
                  Inl e \<Rightarrow> Inl e
                | Inr b1 \<Rightarrow>
                    let c = m_channel b1 ! ch;
                        b2 = b1\<lparr>m_channel := (m_channel b1)[ch := c\<lparr>ports := [] @ [portname]\<rparr>]\<rparr>;
                        b3 = unlock b2
                    in slot (PortsChanged ch) b3))"

definition add_channel :: "'o slot \<Rightarrow> string \<Rightarrow> 'o Bundle \<Rightarrow> error + 'o Bundle" where
  "add_channel slot n b =
     (case lock b of
        Inl e \<Rightarrow> Inl e
      | Inr b1 \<Rightarrow>
          let b2 = b1\<lparr>m_channel := m_channel b1 @ [\<lparr>name = n, ports = []\<rparr>]\<rparr>;
              b3 = unlock b2
          in slot ConfigurationChanged b3)"

text \<open>
  \<open>remove_channel\<close> and \<open>remove_channels\<close> hold the mutex until they return and
  contain no emission.
\<close>

definition remove_channel :: "nat \<Rightarrow> 'o Bundle \<Rightarrow> error + 'o Bundle" where
  "remove_channel ch b =
     (case nchannels b of
        Inl e \<Rightarrow> Inl e
      | Inr n \<Rightarrow>
          if \<not> ch < n then Inl AssertionFailed
          else (case lock b of
                  Inl e \<Rightarrow> Inl e
                | Inr b1 \<Rightarrow> Inr (unlock (b1\<lparr>m_channel := erase ch (m_channel b1)\<rparr>))))"

definition remove_channels :: "'o Bundle \<Rightarrow> error + 'o Bundle" where
  "remove_channels b =
     (case lock b of
        Inl e \<Rightarrow> Inl e
      | Inr b1 \<Rightarrow> Inr (unlock (b1\<lparr>m_channel := []\<rparr>)))"

definition set_channel_name :: "'o slot \<Rightarrow> nat \<Rightarrow> string \<Rightarrow> 'o Bundle \<Rightarrow> error + 'o Bundle" where
  "set_channel_name slot ch n b =
     (case nchannels b of
        Inl e \<Rightarrow> Inl e
      | Inr k \<Rightarrow>
          if \<not> ch < k then Inl AssertionFailed
          else (case lock b of
                  Inl e \<Rightarrow> Inl e
                | Inr b1 \<Rightarrow>
                    let b2 = b1\<lparr>m_channel := (m_channel b1)[ch := (m_channel b1 ! ch)\<lparr>name := n\<rparr>]\<rparr>;
                        b3 = unlock b2
                    in slot NameChanged b3))"

text \<open>
  A slot that only records the signal it was called with, for bundles whose observer
  state is the list of signals received so far.
\<close>

definition record_signal :: "(signal list) slot" where
  "record_signal sg b = Inr (b\<lparr>observers := observers b @ [sg]\<rparr>)"

subsection \<open>connect and disconnect\<close>

text \<open>
  Modelled from the spec: \<open>AudioEngine\<close> is the external routing engine, of which only
  \<open>connect (port, port)\<close> and \<open>disconnect (port, port)\<close> are used. Its state is the
  sequence of calls it has received.
\<close>

datatype engine_call = EngineConnect string string | EngineDisconnect string string

type_synonym AudioEngine = "engine_call list"

definition engine_connect :: "string \<Rightarrow> string \<Rightarrow> AudioEngine \<Rightarrow> AudioEngine" where
  "engine_connect j k engine = engine @ [EngineConnect j k]"

definition engine_disconnect :: "string \<Rightarrow> string \<Rightarrow> AudioEngine \<Rightarrow> AudioEngine" where
  "engine_disconnect j k engine = engine @ [EngineDisconnect j k]"

text \<open>The loop over \<open>k\<close> in \<open>other_ports\<close>, then the loop over \<open>j\<close> in \<open>our_ports\<close>.\<close>

primrec connect_other_ports :: "string \<Rightarrow> PortList \<Rightarrow> AudioEngine \<Rightarrow> AudioEngine" where
  "connect_other_ports j [] engine = engine"
| "connect_other_ports j (k # ks) engine = connect_other_ports j ks (engine_connect j k engine)"

primrec connect_our_ports :: "PortList \<Rightarrow> PortList \<Rightarrow> AudioEngine \<Rightarrow> AudioEngine" where
  "connect_our_ports [] other_ports engine = engine"
| "connect_our_ports (j # js) other_ports engine =
     connect_our_ports js other_ports (connect_other_ports j other_ports engine)"

text \<open>The loop \<open>for (uint32_t i = 0; i < N; ++i)\<close>, from the current \<open>i\<close> on.\<close>

function connect_channels ::
  "nat \<Rightarrow> nat \<Rightarrow> 'o Bundle \<Rightarrow> 'p Bundle \<Rightarrow> AudioEngine \<Rightarrow> error + AudioEngine" where
  "connect_channels i N b other engine =
     (if i < N then
        (case channel_ports i b of
           Inl e \<Rightarrow> Inl e
         | Inr our_ports \<Rightarrow>
             (case channel_ports i other of
                Inl e \<Rightarrow> Inl e
              | Inr other_ports \<Rightarrow>
                  connect_channels (Suc i) N b other
                    (connect_our_ports our_ports other_ports engine)))
      else Inr engine)"
  by pat_completeness auto
termination
  by (relation "measure (\<lambda>(i, N, b, other, engine). N - i)") auto

declare connect_channels.simps [simp del]

definition connect :: "'p Bundle \<Rightarrow> AudioEngine \<Rightarrow> 'o Bundle \<Rightarrow> error + AudioEngine" where
  "connect other engine b =
     (case nchannels b of
        Inl e \<Rightarrow> Inl e
      | Inr N \<Rightarrow>
          (case nchannels other of
             Inl e \<Rightarrow> Inl e
           | Inr M \<Rightarrow>
               if N \<noteq> M then Inl AssertionFailed
               else connect_channels 0 N b other engine))"

subsection \<open>Notation for the statements, an observer and an example\<close>

text \<open>
  The bundle \<open>b\<close> with the port list of channel \<open>ch\<close> replaced by \<open>pl\<close> and every
  other member as it is in \<open>b\<close>.
\<close>

definition with_ports :: "nat \<Rightarrow> PortList \<Rightarrow> 'o Bundle \<Rightarrow> 'o Bundle" where
  "with_ports ch pl b = b\<lparr>m_channel := (m_channel b)[ch := (m_channel b ! ch)\<lparr>ports := pl\<rparr>]\<rparr>"

text \<open>
  An observer that calls back into the bundle: on \<open>PortsChanged ch\<close> it asks for
  \<open>channel_ports ch\<close> and keeps the answer.
\<close>

definition requery_ports :: "(PortList list) slot" where
  "requery_ports sg b =
     (case sg of
        PortsChanged ch \<Rightarrow>
          (case channel_ports ch b of
             Inl e \<Rightarrow> Inl e
           | Inr pl \<Rightarrow> Inr (b\<lparr>observers := observers b @ [pl]\<rparr>))
      | ConfigurationChanged \<Rightarrow> Inr b
      | NameChanged \<Rightarrow> Inr b)"

text \<open>Two bundles of two channels, with two and one and with one and three ports.\<close>

definition example_out :: "'o \<Rightarrow> 'o Bundle" where
  "example_out obs =
     \<lparr>m_channel = [\<lparr>name = ''L'', ports = [''a:1'', ''a:2'']\<rparr>, \<lparr>name = ''R'', ports = [''a:3'']\<rparr>],
      m_name = ''out'', m_ports_are_inputs = False, m_channel_mutex = False, observers = obs\<rparr>"

definition example_in :: "'o \<Rightarrow> 'o Bundle" where
  "example_in obs =
     \<lparr>m_channel = [\<lparr>name = ''L'', ports = [''b:1'']\<rparr>,
                   \<lparr>name = ''R'', ports = [''b:2'', ''b:3'', ''b:4'']\<rparr>],
      m_name = ''in'', m_ports_are_inputs = True, m_channel_mutex = False, observers = obs\<rparr>"

section \<open>Properties of Beats\<close>

lemmas Beats_eval = Beats_def Beats_ticks_def Beats_beats_def normalize_def
  normalize_borrow.simps normalize_carry.simps PPQN_def ticks_per_beat_def get_beats_def
  get_ticks_def to_ticks_def u32_def i32_def c_div_def

lemma PPQN_pos: "0 < PPQN"
  by (simp add: PPQN_def ticks_per_beat_def)

subsection \<open>The loops of normalize in closed form\<close>

lemma normalize_borrow_eq:
  "normalize_borrow b t = (if t < 0 then (b + t div PPQN, t mod PPQN) else (b, t))"
proof (induction b t rule: normalize_borrow.induct)
  case (1 b t)
  show ?case
  proof (cases "t < 0")
    case False
    then show ?thesis by (subst normalize_borrow.simps) simp
  next
    case True
    have d: "(t + PPQN) div PPQN = t div PPQN + 1" and m: "(t + PPQN) mod PPQN = t mod PPQN"
      using PPQN_pos by simp_all
    show ?thesis
    proof (cases "t + PPQN < 0")
      case True
      with "1.IH" [OF \<open>t < 0\<close>] d m \<open>t < 0\<close> show ?thesis
        by (subst normalize_borrow.simps) simp
    next
      case False
      then have "t div PPQN = - 1" "t mod PPQN = t + PPQN"
        using \<open>t < 0\<close> int_div_pos_eq [of t PPQN "- 1" "t + PPQN"]
          int_mod_pos_eq [of t PPQN "- 1" "t + PPQN"] by simp_all
      with "1.IH" [OF \<open>t < 0\<close>] False \<open>t < 0\<close> show ?thesis
        by (subst normalize_borrow.simps) simp
    qed
  qed
qed

lemma normalize_carry_eq:
  "0 \<le> t \<Longrightarrow> normalize_carry b t = (b + t div PPQN, t mod PPQN)"
proof (induction b t rule: normalize_carry.induct)
  case (1 beats ticks)
  show ?case
  proof (cases "ticks \<ge> PPQN")
    case False
    with "1.prems" show ?thesis by (subst normalize_carry.simps) simp
  next
    case True
    have d: "(ticks - PPQN) div PPQN = ticks div PPQN - 1"
      and m: "(ticks - PPQN) mod PPQN = ticks mod PPQN"
    proof -
      have e: "ticks - PPQN = PPQN * (ticks div PPQN - 1) + ticks mod PPQN"
        by (simp add: algebra_simps)
      have r: "0 \<le> ticks mod PPQN" "ticks mod PPQN < PPQN" using PPQN_pos by simp_all
      show "(ticks - PPQN) div PPQN = ticks div PPQN - 1"
        using int_div_pos_eq [OF e r] .
      show "(ticks - PPQN) mod PPQN = ticks mod PPQN"
        using int_mod_pos_eq [OF e r] .
    qed
    from True have "0 \<le> ticks - PPQN" by simp
    from "1.IH" [OF True this] d m True show ?thesis
      by (subst normalize_carry.simps) simp
  qed
qed

text \<open>
  What the constructor computes, by the signs of its arguments. In the third case the
  borrow loop has taken a non-negative beat count below zero, and the sign that was
  read afterwards is applied to ticks that were already made positive.
\<close>

lemma Beats_closed:
  "Beats b t =
     (if 0 \<le> b \<and> 0 \<le> t then \<lparr>m_beats = b + t div PPQN, m_ticks = t mod PPQN\<rparr>
      else if 0 \<le> b \<and> 0 \<le> b + t div PPQN then \<lparr>m_beats = b + t div PPQN, m_ticks = t mod PPQN\<rparr>
      else if 0 \<le> b then \<lparr>m_beats = b + t div PPQN, m_ticks = - (t mod PPQN)\<rparr>
      else \<lparr>m_beats = b - \<bar>t\<bar> div PPQN, m_ticks = - (\<bar>t\<bar> mod PPQN)\<rparr>)"
proof -
  have nn: "0 \<le> t mod PPQN" "t mod PPQN < PPQN" using PPQN_pos by simp_all
  have dn: "t < 0 \<Longrightarrow> t div PPQN < 0" using PPQN_pos by (simp add: div_neg_pos_less0)
  have mt: "(t mod PPQN) div PPQN = 0" "(t mod PPQN) mod PPQN = t mod PPQN" by (simp_all add: nn)
  show ?thesis
    using nn dn mt
    by (auto simp add: Beats_def normalize_def normalize_borrow_eq normalize_carry_eq Let_def abs_if)
qed

lemma Beats_ticks_in_range:
  assumes "normalize_fits b t"
  shows "\<bar>get_ticks (Beats b t)\<bar> < PPQN"
proof -
  have "0 \<le> t mod PPQN" "t mod PPQN < PPQN" "0 \<le> \<bar>t\<bar> mod PPQN" "\<bar>t\<bar> mod PPQN < PPQN"
    using PPQN_pos by simp_all
  then show ?thesis by (simp add: Beats_closed get_ticks_def)
qed

lemma Beats_sign_agrees:
  assumes "normalize_fits b t"
  shows "(get_beats (Beats b t) < 0 \<longrightarrow> get_ticks (Beats b t) \<le> 0)
   \<and> (0 \<le> get_beats (Beats b t) \<longrightarrow> 0 \<le> get_ticks (Beats b t))"
proof -
  have r: "0 \<le> t mod PPQN" "0 \<le> \<bar>t\<bar> mod PPQN" "0 \<le> \<bar>t\<bar> div PPQN"
    using PPQN_pos by (simp_all add: pos_imp_zdiv_nonneg_iff)
  have "0 \<le> t \<Longrightarrow> 0 \<le> t div PPQN" using PPQN_pos by (simp add: pos_imp_zdiv_nonneg_iff)
  with r show ?thesis by (auto simp add: Beats_closed get_ticks_def get_beats_def)
qed

text \<open>
  The total number of ticks survives the construction when the value is not negative,
  and when both arguments are at most zero.
\<close>

lemma Beats_total_preserved:
  assumes "normalize_fits b t"
    and s: "(0 \<le> b \<and> 0 \<le> b * PPQN + t) \<or> (b < 0 \<and> t \<le> 0)"
  shows "get_beats (Beats b t) * PPQN + get_ticks (Beats b t) = b * PPQN + t"
proof -
  have e: "t div PPQN * PPQN + t mod PPQN = t" by simp
  have a: "\<bar>t\<bar> div PPQN * PPQN + \<bar>t\<bar> mod PPQN = \<bar>t\<bar>" by simp
  have k: "0 \<le> b * PPQN + t \<Longrightarrow> 0 \<le> b + t div PPQN"
  proof -
    assume "0 \<le> b * PPQN + t"
    then have "0 \<le> (b * PPQN + t) div PPQN"
      using PPQN_pos pos_imp_zdiv_nonneg_iff [of PPQN "b * PPQN + t"] by blast
    moreover have "(b * PPQN + t) div PPQN = b + t div PPQN"
      using PPQN_pos by simp
    ultimately show ?thesis by simp
  qed
  from s show ?thesis
  proof
    assume "0 \<le> b \<and> 0 \<le> b * PPQN + t"
    with k have "Beats b t = \<lparr>m_beats = b + t div PPQN, m_ticks = t mod PPQN\<rparr>"
      by (simp add: Beats_closed)
    with e show ?thesis by (simp add: get_beats_def get_ticks_def algebra_simps)
  next
    assume "b < 0 \<and> t \<le> 0"
    then have "Beats b t = \<lparr>m_beats = b - \<bar>t\<bar> div PPQN, m_ticks = - (\<bar>t\<bar> mod PPQN)\<rparr>"
      and "\<bar>t\<bar> = - t"
      by (simp_all add: Beats_closed)
    with a show ?thesis by (simp add: get_beats_def get_ticks_def algebra_simps)
  qed
qed

text \<open>
  C1. Constructing \<open>Beats (b, t)\<close> is claimed to keep the total tick count
  \<open>b * PPQN + t\<close> for every pair. Where no step leaves \<open>int32_t\<close> the ticks do end
  within one beat (\<open>Beats_ticks_in_range\<close>) and carry the sign of the beats
  (\<open>Beats_sign_agrees\<close>), but at \<open>Beats (0, -5)\<close> the borrow loop leaves \<open>(-1, 1915)\<close>, the sign is then read
  as negative, and the result is \<open>(-1, -1915)\<close>: 3835 ticks before zero instead of 5.
\<close>

theorem normalize_changes_total_of_small_negative:
  "get_beats (Beats 0 (- 5)) = - 1 \<and> get_ticks (Beats 0 (- 5)) = - 1915
   \<and> get_beats (Beats 0 (- 5)) * PPQN + get_ticks (Beats 0 (- 5)) = - 3835
   \<and> 0 * PPQN + (- 5) = (- 5 :: int)
   \<and> get_beats (Beats 1 (- 5)) * PPQN + get_ticks (Beats 1 (- 5)) = 1 * PPQN + (- 5)"
  by (simp add: Beats_eval)

text \<open>
  C2 as stated: with \<open>PPQN = 1920\<close>, rounding \<open>Beats (0, 700)\<close> to the nearest of
  four subdivisions is claimed to give \<open>Beats (1, 0)\<close>. It does not.
\<close>

theorem round_to_subdivision_700_not_one_beat:
  "round_to_subdivision 4 RoundNearest (Beats 0 700) \<noteq> Inr (Beats 1 0)"
  by (simp add: Beats_eval round_to_subdivision_def subdivision_nearest_def Let_def)

text \<open>
  C2, amended. The cell is 480 ticks; 700 is 220 ticks past 480 and 260 before 960, the
  remainder 220 is not more than half a cell, and the value rounds backward to
  \<open>Beats (0, 480)\<close>.
\<close>

theorem round_to_subdivision_700_nearest:
  "PPQN = 1920 \<and> u32 (c_div ticks_per_beat 4) = 480
   \<and> round_to_subdivision 4 RoundNearest (Beats 0 700) = Inr (Beats 0 480)
   \<and> get_beats (Beats 0 480) = 0 \<and> get_ticks (Beats 0 480) = 480"
  by (simp add: Beats_eval round_to_subdivision_def subdivision_nearest_def Let_def)

subsection \<open>Rounding backward to a subdivision\<close>

lemma Beats_zero: "Beats 0 0 = \<lparr>m_beats = 0, m_ticks = 0\<rparr>"
  by (simp add: Beats_closed)

text \<open>
  \<open>Beats::ticks\<close> of a tick count between zero and that of a non-negative value in
  normal form, itself below \<open>2^31\<close> ticks, is not after the value and not before zero.
\<close>

lemma Beats_ticks_below:
  assumes v: "0 \<le> m_beats v" "0 \<le> m_ticks v" "m_ticks v < PPQN"
    and T: "0 \<le> T" "T \<le> to_ticks v" "to_ticks v < 2 ^ 31"
  shows "Beats_le (Beats_ticks T) v" "Beats_ge (Beats_ticks T) (Beats 0 0)"
    and "T < to_ticks v \<Longrightarrow> Beats_lt (Beats_ticks T) v"
proof -
  have r: "Beats_ticks T = \<lparr>m_beats = T div PPQN, m_ticks = T mod PPQN\<rparr>"
    using T by (simp add: Beats_ticks_def Beats_closed)
  have d: "to_ticks v div PPQN = m_beats v" and m: "to_ticks v mod PPQN = m_ticks v"
    using v PPQN_pos by (simp_all add: to_ticks_def)
  have nn: "0 \<le> T div PPQN" "0 \<le> T mod PPQN"
    using T PPQN_pos by (simp_all add: pos_imp_zdiv_nonneg_iff)
  have le: "T div PPQN \<le> m_beats v"
    using zdiv_mono1 [OF T(2) PPQN_pos] d by simp
  have e1: "T mod PPQN = T - T div PPQN * PPQN" by (simp add: minus_div_mult_eq_mod)
  have e2: "to_ticks v = m_beats v * PPQN + m_ticks v" by (simp add: to_ticks_def)
  have eq: "T div PPQN = m_beats v \<Longrightarrow> T mod PPQN = T - m_beats v * PPQN"
    using e1 by simp
  show "Beats_le (Beats_ticks T) v"
  proof (cases "T div PPQN = m_beats v")
    case True
    with eq e2 T(2) have "T mod PPQN \<le> m_ticks v" by linarith
    with True show ?thesis by (simp add: Beats_le_def r)
  next
    case False
    with le show ?thesis by (simp add: Beats_le_def r)
  qed
  show "Beats_ge (Beats_ticks T) (Beats 0 0)"
    using nn by (auto simp add: Beats_ge_def r Beats_zero)
  show "Beats_lt (Beats_ticks T) v" if "T < to_ticks v"
  proof (cases "T div PPQN = m_beats v")
    case True
    with eq e2 that have "T mod PPQN < m_ticks v" by linarith
    with True show ?thesis by (simp add: Beats_lt_def r)
  next
    case False
    with le show ?thesis by (simp add: Beats_lt_def r)
  qed
qed

lemma worth_range:
  assumes "0 < n" "n \<le> PPQN"
  shows "u32 (c_div ticks_per_beat n) = PPQN div n" "0 < PPQN div n" "PPQN div n \<le> PPQN"
proof -
  have c: "c_div ticks_per_beat n = PPQN div n"
    using assms by (simp add: c_div_def PPQN_def ticks_per_beat_def)
  show p: "0 < PPQN div n" using assms by (simp add: pos_imp_zdiv_pos_iff)
  show le: "PPQN div n \<le> PPQN"
    using zdiv_mono2 [of PPQN 1 n] assms PPQN_pos by simp
  from le have "PPQN div n < 2 ^ 32" by (simp add: PPQN_def ticks_per_beat_def)
  with p show "u32 (c_div ticks_per_beat n) = PPQN div n"
    unfolding c u32_def by simp
qed

text \<open>
  For a non-negative value in normal form below \<open>2^31\<close> ticks and between one and
  \<open>PPQN\<close> subdivisions: \<open>RoundDownMaybe\<close> and the backward case of
  \<open>RoundNearest\<close> return a value between zero and the value, and \<open>RoundDownAlways\<close>
  returns a value between zero and strictly before the value, unless the value is zero.
\<close>

lemma subdivision_backward_in_range:
  assumes v: "0 \<le> m_beats v" "0 \<le> m_ticks v" "m_ticks v < PPQN"
    and r: "to_ticks v < 2 ^ 31"
    and n: "0 < n" "n \<le> PPQN"
  shows "\<exists>r. round_to_subdivision n RoundDownMaybe v = Inr r \<and> Beats_le r v \<and> Beats_ge r (Beats 0 0)"
    and "to_ticks v \<noteq> 0 \<Longrightarrow>
      \<exists>r. round_to_subdivision n RoundDownAlways v = Inr r \<and> Beats_lt r v \<and> Beats_ge r (Beats 0 0)"
    and "2 * (to_ticks v mod (PPQN div n)) \<le> PPQN div n \<Longrightarrow>
      \<exists>r. round_to_subdivision n RoundNearest v = Inr r \<and> Beats_le r v \<and> Beats_ge r (Beats 0 0)"
proof -
  let ?T = "to_ticks v"
  let ?w = "PPQN div n"
  note w = worth_range [OF n]
  have T0: "0 \<le> ?T" using v PPQN_pos by (simp add: to_ticks_def)
  have uT: "u32 ?T = ?T" using T0 r by (simp add: u32_def)
  have m: "0 \<le> ?T mod ?w" "?T mod ?w < ?w" "?T mod ?w \<le> ?T"
    using w(2) T0 by (simp_all add: zmod_le_nonneg_dividend)
  have n0: "n \<noteq> 0" using n by simp
  have w0: "?w \<noteq> 0" using w(2) by simp
  have s: "0 \<le> ?T - ?T mod ?w" "?T - ?T mod ?w \<le> ?T" "?T - ?T mod ?w < 2 ^ 31"
    using m r by simp_all
  then have c: "i32 (u32 (?T - ?T mod ?w)) = ?T - ?T mod ?w"
    by (simp add: u32_def i32_def)
  show "\<exists>r. round_to_subdivision n RoundDownMaybe v = Inr r \<and> Beats_le r v \<and> Beats_ge r (Beats 0 0)"
    using Beats_ticks_below(1,2) [OF v s(1,2) r] m
    by (simp add: round_to_subdivision_def n0 w(1) w0 uT subdivision_down_def Let_def c)
  show "\<exists>r. round_to_subdivision n RoundNearest v = Inr r \<and> Beats_le r v \<and> Beats_ge r (Beats 0 0)"
    if "2 * (?T mod ?w) \<le> ?w"
  proof (cases "?T mod ?w = 0")
    case True
    have "i32 ?T = ?T" using T0 r by (simp add: i32_def)
    with True Beats_ticks_below(1,2) [OF v T0 order_refl r] w(2) show ?thesis
      by (simp add: round_to_subdivision_def n0 w(1) w0 uT subdivision_nearest_def Let_def)
  next
    case False
    with m have "0 < ?T mod ?w" by simp
    moreover from that have "\<not> real_of_int ?w / 2 < real_of_int (?T mod ?w)"
      by linarith
    ultimately show ?thesis
      using Beats_ticks_below(1,2) [OF v s(1,2) r] m w(2)
      by (simp add: round_to_subdivision_def n0 w(1) w0 uT subdivision_nearest_def Let_def c)
  qed
  show "\<exists>r. round_to_subdivision n RoundDownAlways v = Inr r \<and> Beats_lt r v \<and> Beats_ge r (Beats 0 0)"
    if nz: "?T \<noteq> 0"
  proof (cases "?T mod ?w = 0")
    case False
    with m have lt: "?T - ?T mod ?w < ?T" by simp
    from False Beats_ticks_below(2) [OF v s(1,2) r] Beats_ticks_below(3) [OF v s(1,2) r lt] m
    show ?thesis
      by (simp add: round_to_subdivision_def n0 w(1) w0 uT subdivision_down_def Let_def c)
  next
    case True
    then have "?w dvd ?T" by (simp add: dvd_eq_mod_eq_0)
    with nz T0 w(2) have ge: "?w \<le> ?T" by (simp add: zdvd_imp_le)
    then have s': "0 \<le> ?T - ?w" "?T - ?w \<le> ?T" "?T - ?w < ?T" "?T - ?w < 2 ^ 31"
      using w(2) r by simp_all
    then have c': "i32 (u32 (?T - ?w)) = ?T - ?w" by (simp add: u32_def i32_def)
    from True ge Beats_ticks_below(2) [OF v s'(1,2) r] Beats_ticks_below(3) [OF v s'(1,2) r s'(3)]
    show ?thesis
      by (simp add: round_to_subdivision_def n0 w(1) w0 uT subdivision_down_def Let_def c')
  qed
qed

text \<open>
  The conversions take part: a value of \<open>2^31\<close> ticks or more comes back from
  \<open>uint32_t\<close> as a negative \<open>int32_t\<close>, and the result is before zero.
\<close>

lemma round_down_beyond_int32:
  "round_to_subdivision 1 RoundDownMaybe (Beats 1118482 0)
     = Inr \<lparr>m_beats = - 1118481, m_ticks = - 1664\<rparr>
   \<and> Beats_lt \<lparr>m_beats = - 1118481, m_ticks = - 1664\<rparr> (Beats 0 0)"
  by (simp add: Beats_closed Beats_ticks_def round_to_subdivision_def subdivision_down_def
      Let_def PPQN_def ticks_per_beat_def to_ticks_def u32_def i32_def c_div_def Beats_lt_def)

text \<open>
  C3. Rounding a non-negative value backward is claimed never to return a value after
  it. Away from zero, within 31 bits and for at most \<open>PPQN\<close> subdivisions that is so
  (\<open>subdivision_backward_in_range\<close>). At zero \<open>RoundDownAlways\<close> finds
  \<open>ticks < difference\<close> and sets \<open>ticks = ticks_per_beat - ticks\<close>: the result is
  one whole beat, after the value.
\<close>

theorem round_down_always_at_zero_moves_forward:
  "round_to_subdivision 1 RoundDownAlways (Beats 0 0) = Inr (Beats 1 0)
   \<and> round_to_subdivision 4 RoundDownAlways (Beats 0 0) = Inr (Beats 1 0)
   \<and> Beats_gt (Beats 1 0) (Beats 0 0)"
  by (simp add: Beats_eval round_to_subdivision_def subdivision_down_def Let_def Beats_gt_def)




text \<open>
  C10. Comparing a value with a plain \<open>int\<close> compares the beats and nothing else:
  \<open>Beats (1, 500) == 1\<close> holds although the value is 500 ticks past the beat.
\<close>

theorem Beats_eq_int_ignores_ticks:
  "(Beats_eq_int v n \<longleftrightarrow> get_beats v = n)
   \<and> Beats_eq_int (Beats 1 500) 1
   \<and> get_ticks (Beats 1 500) = 500
   \<and> \<not> Beats_eq (Beats 1 500) (Beats 1 0)"
  by (simp add: Beats_eval Beats_eq_int_def Beats_eq_def)

subsection \<open>Comparison with a real number\<close>

lemma double_range: "1 / 2 ^ 1022 \<le> (1 / 1000000 :: real)" "(2::real) \<le> 2 ^ 1023"
proof -
  have "(1000000::real) \<le> 2 ^ 20" by simp
  also have "(2::real) ^ 20 \<le> 2 ^ 1022" by (rule power_increasing) simp_all
  finally show "1 / 2 ^ 1022 \<le> (1 / 1000000 :: real)" by (simp add: field_simps)
  have "(2::real) ^ 1 \<le> 2 ^ 1023" by (rule power_increasing) simp_all
  then show "(2::real) \<le> 2 ^ 1023" by simp
qed

text \<open>
  A rounding with relative error at most \<open>2^-53\<close> on the normal range of
  \<open>double\<close> moves a number between \<open>10^-6\<close> and 2 by less than one part in a
  million.
\<close>

lemma rnd_abs_bounds:
  assumes err: "\<And>x::real. 1 / 2 ^ 1022 \<le> \<bar>x\<bar> \<Longrightarrow> \<bar>x\<bar> \<le> 2 ^ 1023 \<Longrightarrow> \<bar>rnd x - x\<bar> \<le> \<bar>x\<bar> / 2 ^ 53"
    and "1 / 1000000 \<le> lo" "lo \<le> \<bar>y\<bar>" "\<bar>y\<bar> \<le> hi" "hi \<le> 2"
  shows "lo * (999999 / 1000000) \<le> \<bar>rnd y\<bar> \<and> \<bar>rnd y\<bar> \<le> hi * (1000001 / 1000000)"
    and "0 \<le> y \<Longrightarrow> 0 \<le> rnd y"
proof -
  have "(2::real) ^ 53 \<ge> 1000000" by simp
  then have "\<bar>y\<bar> / 2 ^ 53 \<le> \<bar>y\<bar> / 1000000"
    by (intro divide_left_mono) simp_all
  moreover have "\<bar>rnd y - y\<bar> \<le> \<bar>y\<bar> / 2 ^ 53"
    using assms(2-5) double_range by (intro err) linarith+
  ultimately have e: "\<bar>rnd y - y\<bar> \<le> \<bar>y\<bar> / 1000000" by linarith
  then have "\<bar>y\<bar> * (999999 / 1000000) \<le> \<bar>rnd y\<bar>" "\<bar>rnd y\<bar> \<le> \<bar>y\<bar> * (1000001 / 1000000)"
    by linarith+
  moreover have "lo * (999999 / 1000000) \<le> \<bar>y\<bar> * (999999 / 1000000)"
    "\<bar>y\<bar> * (1000001 / 1000000) \<le> hi * (1000001 / 1000000)"
    using assms by simp_all
  ultimately show "lo * (999999 / 1000000) \<le> \<bar>rnd y\<bar> \<and> \<bar>rnd y\<bar> \<le> hi * (1000001 / 1000000)"
    by linarith
  from e show "0 \<le> y \<Longrightarrow> 0 \<le> rnd y" by linarith
qed

lemma rnd_nonneg_bounds:
  assumes err: "\<And>x::real. 1 / 2 ^ 1022 \<le> \<bar>x\<bar> \<Longrightarrow> \<bar>x\<bar> \<le> 2 ^ 1023 \<Longrightarrow> \<bar>rnd x - x\<bar> \<le> \<bar>x\<bar> / 2 ^ 53"
    and "1 / 1000000 \<le> lo" "lo \<le> y" "y \<le> hi" "hi \<le> 2"
  shows "lo * (999999 / 1000000) \<le> rnd y \<and> rnd y \<le> hi * (1000001 / 1000000)"
proof -
  from assms(2,3) have y: "0 \<le> y" by linarith
  then have a: "\<bar>y\<bar> = y" by simp
  from rnd_abs_bounds(2) [of rnd lo y hi, OF err] assms(2-5) y have "0 \<le> rnd y" by simp
  with rnd_abs_bounds(1) [of rnd lo y hi, OF err] assms(2-5) a show ?thesis by simp
qed

text \<open>A monotone, odd rounding keeps a difference within the rounded tolerance.\<close>

lemma within_tolerance:
  assumes mono: "\<And>x y::real. x \<le> y \<Longrightarrow> (rnd x :: real) \<le> rnd y"
    and odd: "\<And>x::real. rnd (- x) = - rnd x"
    and "\<bar>d\<bar> \<le> e"
  shows "\<bar>rnd d\<bar> \<le> rnd e"
proof -
  from assms(3) have "d \<le> e" "- e \<le> d" by simp_all
  then have "rnd d \<le> rnd e" "rnd (- e) \<le> rnd d" by (simp_all add: mono)
  then show ?thesis by (simp add: odd abs_le_iff)
qed

lemma to_double_one:
  assumes zero: "rnd 0 = (0::real)"
    and err: "\<And>x::real. 1 / 2 ^ 1022 \<le> \<bar>x\<bar> \<Longrightarrow> \<bar>x\<bar> \<le> 2 ^ 1023 \<Longrightarrow> \<bar>rnd x - x\<bar> \<le> \<bar>x\<bar> / 2 ^ 53"
  shows "999999 / 1000000 \<le> to_double rnd (Beats 1 0)
    \<and> to_double rnd (Beats 1 0) \<le> 1000001 / 1000000"
proof -
  have b: "Beats 1 0 = \<lparr>m_beats = 1, m_ticks = 0\<rparr>"
    by (simp add: Beats_eval)
  have "to_double rnd (Beats 1 0) = rnd 1"
    by (simp add: b to_double_def zero)
  with rnd_nonneg_bounds [of rnd 1 1 1, OF err] show ?thesis by simp
qed

lemma tolerance_bounds:
  assumes err: "\<And>x::real. 1 / 2 ^ 1022 \<le> \<bar>x\<bar> \<Longrightarrow> \<bar>x\<bar> \<le> 2 ^ 1023 \<Longrightarrow> \<bar>rnd x - x\<bar> \<le> \<bar>x\<bar> / 2 ^ 53"
  shows "52 / 100000 \<le> rnd (1 / real_of_int PPQN) \<and> rnd (1 / real_of_int PPQN) \<le> 53 / 100000"
proof -
  have P: "real_of_int PPQN = 1920" by (simp add: PPQN_def ticks_per_beat_def)
  from rnd_nonneg_bounds [of rnd "1 / 1920" "1 / 1920" "1 / 1920", OF err]
  show ?thesis unfolding P by simp
qed

lemma example_within:
  assumes zero: "rnd 0 = (0::real)"
    and err: "\<And>x::real. 1 / 2 ^ 1022 \<le> \<bar>x\<bar> \<Longrightarrow> \<bar>x\<bar> \<le> 2 ^ 1023 \<Longrightarrow> \<bar>rnd x - x\<bar> \<le> \<bar>x\<bar> / 2 ^ 53"
  shows "Beats_eq_double rnd (Beats 1 0) (rnd (1 + rnd (rnd (3 / 10) / real_of_int PPQN)))"
proof -
  let ?d = "to_double rnd (Beats 1 0)"
  let ?x = "rnd (1 + rnd (rnd (3 / 10) / 1920))"
  have P: "real_of_int PPQN = 1920" by (simp add: PPQN_def ticks_per_beat_def)
  have a: "29 / 100 \<le> rnd (3 / 10) \<and> rnd (3 / 10) \<le> 31 / 100"
    using rnd_nonneg_bounds [of rnd "3 / 10" "3 / 10" "3 / 10", OF err] by simp
  then have "29 / 100 / 1920 \<le> rnd (3 / 10) / 1920 \<and> rnd (3 / 10) / 1920 \<le> 31 / 100 / 1920"
    by simp
  then have q: "15 / 100000 \<le> rnd (rnd (3 / 10) / 1920)
      \<and> rnd (rnd (3 / 10) / 1920) \<le> 17 / 100000"
    using rnd_nonneg_bounds [of rnd "29 / 100 / 1920" "rnd (3 / 10) / 1920" "31 / 100 / 1920", OF err]
    by simp
  then have "100015 / 100000 \<le> 1 + rnd (rnd (3 / 10) / 1920)
      \<and> 1 + rnd (rnd (3 / 10) / 1920) \<le> 100017 / 100000"
    by simp
  then have x: "100014 / 100000 \<le> ?x \<and> ?x \<le> 100018 / 100000"
    using rnd_nonneg_bounds [of rnd "100015 / 100000" "1 + rnd (rnd (3 / 10) / 1920)"
        "100017 / 100000", OF err]
    by simp
  from x to_double_one [of rnd, OF zero err]
  have "13 / 100000 \<le> \<bar>?d - ?x\<bar> \<and> \<bar>?d - ?x\<bar> \<le> 19 / 100000"
    by simp
  then have "\<bar>rnd (?d - ?x)\<bar> \<le> 20 / 100000"
    using rnd_abs_bounds(1) [of rnd "13 / 100000" "?d - ?x" "19 / 100000", OF err] by simp
  with tolerance_bounds [of rnd, OF err] show ?thesis
    unfolding Beats_eq_double_def P by linarith
qed

lemma example_outside:
  assumes zero: "rnd 0 = (0::real)"
    and err: "\<And>x::real. 1 / 2 ^ 1022 \<le> \<bar>x\<bar> \<Longrightarrow> \<bar>x\<bar> \<le> 2 ^ 1023 \<Longrightarrow> \<bar>rnd x - x\<bar> \<le> \<bar>x\<bar> / 2 ^ 53"
  shows "\<not> Beats_eq_double rnd (Beats 1 0) (rnd (1 + rnd (2 / real_of_int PPQN)))"
proof -
  let ?d = "to_double rnd (Beats 1 0)"
  let ?x = "rnd (1 + rnd (2 / 1920))"
  have P: "real_of_int PPQN = 1920" by (simp add: PPQN_def ticks_per_beat_def)
  have q: "104 / 100000 \<le> rnd (2 / 1920) \<and> rnd (2 / 1920) \<le> 105 / 100000"
    using rnd_nonneg_bounds [of rnd "2 / 1920" "2 / 1920" "2 / 1920", OF err] by simp
  then have "100104 / 100000 \<le> 1 + rnd (2 / 1920) \<and> 1 + rnd (2 / 1920) \<le> 100105 / 100000"
    by simp
  then have x: "100103 / 100000 \<le> ?x \<and> ?x \<le> 100106 / 100000"
    using rnd_nonneg_bounds [of rnd "100104 / 100000" "1 + rnd (2 / 1920)" "100105 / 100000", OF err]
    by simp
  from x to_double_one [of rnd, OF zero err]
  have "102 / 100000 \<le> \<bar>?d - ?x\<bar> \<and> \<bar>?d - ?x\<bar> \<le> 107 / 100000"
    by simp
  then have "101 / 100000 \<le> \<bar>rnd (?d - ?x)\<bar>"
    using rnd_abs_bounds(1) [of rnd "102 / 100000" "?d - ?x" "107 / 100000", OF err] by simp
  with tolerance_bounds [of rnd, OF err] show ?thesis
    unfolding Beats_eq_double_def P by linarith
qed

text \<open>
  C8. A value whose \<open>to_double\<close> is within \<open>1 / PPQN\<close> of a real number \<open>x\<close>
  compares equal to \<open>x\<close> and neither less nor greater; \<open>Beats (1, 0)\<close> equals
  \<open>1.0 + 0.3 / PPQN\<close> and does not equal \<open>1.0 + 2.0 / PPQN\<close>. The rounding of
  \<open>double\<close> arithmetic enters through four properties of round-to-nearest: it is
  monotone and odd, it keeps zero, and on the normal range its relative error is at
  most \<open>2^-53\<close>. The two examples are computed as the caller computes them, the
  literal \<open>0.3\<close>, the division and the addition each rounded.
\<close>

theorem tolerance_comparison:
  assumes mono: "\<And>x y::real. x \<le> y \<Longrightarrow> (rnd x :: real) \<le> rnd y"
    and odd: "\<And>x::real. rnd (- x) = - rnd x"
    and zero: "rnd 0 = 0"
    and err: "\<And>x::real. 1 / 2 ^ 1022 \<le> \<bar>x\<bar> \<Longrightarrow> \<bar>x\<bar> \<le> 2 ^ 1023 \<Longrightarrow> \<bar>rnd x - x\<bar> \<le> \<bar>x\<bar> / 2 ^ 53"
  shows "(\<bar>to_double rnd v - x\<bar> \<le> 1 / real_of_int PPQN \<longrightarrow>
            Beats_eq_double rnd v x \<and> \<not> Beats_lt_double rnd v x \<and> \<not> Beats_gt_double rnd v x)
     \<and> Beats_eq_double rnd (Beats 1 0) (rnd (1 + rnd (rnd (3 / 10) / real_of_int PPQN)))
     \<and> \<not> Beats_eq_double rnd (Beats 1 0) (rnd (1 + rnd (2 / real_of_int PPQN)))"
proof (intro conjI impI)
  assume h: "\<bar>to_double rnd v - x\<bar> \<le> 1 / real_of_int PPQN"
  have t: "\<bar>rnd (to_double rnd v - x)\<bar> \<le> rnd (1 / real_of_int PPQN)"
    by (rule within_tolerance [of rnd, OF mono odd h])
  then show "Beats_eq_double rnd v x" by (simp add: Beats_eq_double_def)
  from t show "\<not> Beats_lt_double rnd v x" by (simp add: Beats_lt_double_def)
  from t show "\<not> Beats_gt_double rnd v x" by (simp add: Beats_gt_double_def)
next
  show "Beats_eq_double rnd (Beats 1 0) (rnd (1 + rnd (rnd (3 / 10) / real_of_int PPQN)))"
    by (rule example_within [of rnd, OF zero err])
  show "\<not> Beats_eq_double rnd (Beats 1 0) (rnd (1 + rnd (2 / real_of_int PPQN)))"
    by (rule example_outside [of rnd, OF zero err])
qed

text \<open>The theorem at exact arithmetic, where rounding changes nothing.\<close>

theorem tolerance_comparison_witness:
  "\<bar>to_double (\<lambda>r. r) (Beats 1 0) - (1 + (3 / 10) / 1920)\<bar> \<le> 1 / real_of_int PPQN
   \<and> Beats_eq_double (\<lambda>r. r) (Beats 1 0) (1 + (3 / 10) / 1920)
   \<and> \<not> Beats_lt_double (\<lambda>r. r) (Beats 1 0) (1 + (3 / 10) / 1920)
   \<and> \<not> Beats_gt_double (\<lambda>r. r) (Beats 1 0) (1 + (3 / 10) / 1920)
   \<and> \<not> Beats_eq_double (\<lambda>r. r) (Beats 1 0) (1 + 2 / 1920)"
proof -
  have b: "Beats 1 0 = \<lparr>m_beats = 1, m_ticks = 0\<rparr>"
    by (simp add: Beats_eval)
  have h: "\<bar>to_double (\<lambda>r. r) (Beats 1 0) - (1 + (3 / 10) / 1920)\<bar> \<le> 1 / real_of_int PPQN"
    by (simp add: b to_double_def PPQN_def ticks_per_beat_def)
  show ?thesis
    using h tolerance_comparison [of "\<lambda>r. r" "Beats 1 0" "1 + (3 / 10) / 1920"]
    by (simp add: PPQN_def ticks_per_beat_def)
qed

section \<open>Properties of Bundle\<close>

lemma nchannels_Inr_iff:
  "nchannels b = Inr n \<longleftrightarrow> \<not> m_channel_mutex b \<and> n = length (m_channel b) mod 2 ^ 32"
  by (auto simp add: nchannels_def lock_def)

lemma channel_ports_valid:
  "nchannels b = Inr n \<Longrightarrow> c < n \<Longrightarrow> channel_ports c b = Inr (ports (m_channel b ! c))"
  by (auto simp add: channel_ports_def nchannels_def lock_def split: if_splits)

lemma relock:
  "\<not> m_channel_mutex b \<Longrightarrow>
     unlock (b\<lparr>m_channel_mutex := True, m_channel := cs\<rparr>) = b\<lparr>m_channel := cs\<rparr>"
  by (cases b) (simp add: unlock_def)

lemma relock_same: "\<not> m_channel_mutex b \<Longrightarrow> unlock (b\<lparr>m_channel_mutex := True\<rparr>) = b"
  by (cases b) (simp add: unlock_def)

lemmas Bundle_eval = nchannels_def channel_ports_def lock_def unlock_def Let_def
  example_out_def example_in_def with_ports_def record_signal_def requery_ports_def
  has_colon_def erase_def

subsection \<open>connect\<close>

lemma connect_other_ports_eq:
  "connect_other_ports j ks engine = engine @ map (\<lambda>k. EngineConnect j k) ks"
  by (induction ks arbitrary: engine) (simp_all add: engine_connect_def)

lemma connect_our_ports_eq:
  "connect_our_ports js ks engine =
     engine @ map (\<lambda>(j, k). EngineConnect j k) (List.product js ks)"
  by (induction js arbitrary: engine) (simp_all add: connect_other_ports_eq comp_def)

lemma connect_channels_eq:
  assumes "nchannels b = Inr n" "nchannels other = Inr m" "N \<le> n" "N \<le> m"
  shows "connect_channels i N b other engine =
    Inr (engine @ concat (map (\<lambda>c. map (\<lambda>(j, k). EngineConnect j k)
           (List.product (ports (m_channel b ! c)) (ports (m_channel other ! c)))) [i..<N]))"
  using assms
proof (induction i N b other engine rule: connect_channels.induct)
  case (1 i N b other engine)
  show ?case
  proof (cases "i < N")
    case False
    then show ?thesis by (subst connect_channels.simps) simp
  next
    case True
    with "1.prems" have p: "channel_ports i b = Inr (ports (m_channel b ! i))"
      "channel_ports i other = Inr (ports (m_channel other ! i))"
      by (simp_all add: channel_ports_valid)
    have u: "[i..<N] = i # [Suc i..<N]" using True by (simp add: upt_conv_Cons)
    from "1.IH" [OF True p(1) p(2) "1.prems"] show ?thesis
      by (subst connect_channels.simps) (simp add: True p u connect_our_ports_eq)
  qed
qed

text \<open>
  C4. When both bundles report the same number \<open>N\<close> of channels, \<open>connect\<close> makes
  one \<open>engine.connect (p, q)\<close> call for each pair of a port \<open>p\<close> of our channel
  \<open>i\<close> and a port \<open>q\<close> of the other bundle's channel \<open>i\<close>, channel after channel,
  and nothing else; the number of calls is the sum over the channels of the products of
  the two port counts.
\<close>

theorem connect_cross_product:
  assumes "nchannels a = Inr N" "nchannels b = Inr N"
  shows "\<exists>calls.
      connect b engine a = Inr (engine @ calls)
      \<and> calls = concat (map (\<lambda>i. map (\<lambda>(p, q). EngineConnect p q)
                  (List.product (ports (m_channel a ! i)) (ports (m_channel b ! i)))) [0..<N])
      \<and> length calls = (\<Sum>i<N. length (ports (m_channel a ! i)) * length (ports (m_channel b ! i)))"
proof -
  let ?calls = "concat (map (\<lambda>i. map (\<lambda>(p, q). EngineConnect p q)
      (List.product (ports (m_channel a ! i)) (ports (m_channel b ! i)))) [0..<N])"
  have "connect b engine a = connect_channels 0 N a b engine"
    using assms by (simp add: connect_def)
  then have "connect b engine a = Inr (engine @ ?calls)"
    using connect_channels_eq [OF assms order_refl order_refl] by simp
  moreover have "length ?calls
      = (\<Sum>i<N. length (ports (m_channel a ! i)) * length (ports (m_channel b ! i)))"
    by (simp add: length_concat comp_def atLeast0LessThan interv_sum_list_conv_sum_set_nat)
  ultimately show ?thesis by blast
qed

text \<open>Channels of two and one ports against channels of one and three: five calls.\<close>

theorem connect_cross_product_witness:
  "nchannels (example_out ()) = Inr 2 \<and> nchannels (example_in ()) = Inr 2
   \<and> map (\<lambda>c. length (ports c)) (m_channel (example_out ())) = [2, 1]
   \<and> map (\<lambda>c. length (ports c)) (m_channel (example_in ())) = [1, 3]
   \<and> (\<exists>calls. connect (example_in ()) [] (example_out ()) = Inr calls \<and> length calls = 5)"
proof -
  have n: "nchannels (example_out ()) = Inr 2" "nchannels (example_in ()) = Inr 2"
    by (simp_all add: Bundle_eval)
  have s: "(\<Sum>i<2. length (ports (m_channel (example_out ()) ! i))
              * length (ports (m_channel (example_in ()) ! i))) = 5"
    by (simp add: example_out_def example_in_def numeral_2_eq_2)
  from connect_cross_product [OF n, of "[]"] s
  have "\<exists>calls. connect (example_in ()) [] (example_out ()) = Inr calls \<and> length calls = 5"
    by auto
  with n show ?thesis by (simp add: example_out_def example_in_def)
qed

subsection \<open>Ports of a channel\<close>

lemma find_pos_absent: "x \<notin> set xs \<Longrightarrow> find_pos xs x = length xs"
  by (induction xs) auto

lemma find_pos_first: "x \<notin> set pre \<Longrightarrow> find_pos (pre @ x # post) x = length pre"
  by (induction pre) auto

lemma erase_first: "erase (length pre) (pre @ x # post) = pre @ post"
  by (simp add: erase_def)

lemma remove_port_present:
  assumes "nchannels b = Inr n" "ch < n"
    and "ports (m_channel b ! ch) = pre @ portname # post" "portname \<notin> set pre"
  shows "remove_port_from_channel slot ch portname b =
     slot (PortsChanged ch) (with_ports ch (pre @ post) b)"
proof -
  from assms(1) have f: "\<not> m_channel_mutex b" by (simp add: nchannels_Inr_iff)
  show ?thesis
    using assms f
    by (simp add: remove_port_from_channel_def lock_def Let_def find_pos_first erase_first
        relock with_ports_def)
qed

lemma remove_port_absent:
  assumes "nchannels b = Inr n" "ch < n" "portname \<notin> set (ports (m_channel b ! ch))"
  shows "remove_port_from_channel slot ch portname b = Inr b"
proof -
  from assms(1) have f: "\<not> m_channel_mutex b" by (simp add: nchannels_Inr_iff)
  show ?thesis
    using assms f
    by (simp add: remove_port_from_channel_def lock_def Let_def find_pos_absent relock_same)
qed

text \<open>
  C6. For a valid channel index, \<open>remove_port_from_channel\<close> removes the first
  occurrence of the port name, if there is one, and then emits \<open>PortsChanged\<close> for the
  channel; if there is none it returns the bundle as it was, without error and without
  calling any slot.
\<close>

theorem remove_port_from_channel_first_or_nothing:
  assumes "nchannels b = Inr n" "ch < n"
  shows "(portname \<in> set (ports (m_channel b ! ch)) \<longrightarrow>
            (\<exists>pre post. ports (m_channel b ! ch) = pre @ portname # post \<and> portname \<notin> set pre
               \<and> remove_port_from_channel slot ch portname b =
                   slot (PortsChanged ch) (with_ports ch (pre @ post) b)))
     \<and> (portname \<notin> set (ports (m_channel b ! ch)) \<longrightarrow>
            remove_port_from_channel slot ch portname b = Inr b)"
proof (intro conjI impI)
  assume "portname \<in> set (ports (m_channel b ! ch))"
  then obtain pre post where
    s: "ports (m_channel b ! ch) = pre @ portname # post" "portname \<notin> set pre"
    by (auto dest: split_list_first)
  from remove_port_present [OF assms s] s
  show "\<exists>pre post. ports (m_channel b ! ch) = pre @ portname # post \<and> portname \<notin> set pre
      \<and> remove_port_from_channel slot ch portname b =
          slot (PortsChanged ch) (with_ports ch (pre @ post) b)"
    by blast
next
  assume "portname \<notin> set (ports (m_channel b ! ch))"
  then show "remove_port_from_channel slot ch portname b = Inr b"
    by (rule remove_port_absent [OF assms])
qed

text \<open>
  On a channel holding \<open>a:1, a:2, a:1\<close> the first \<open>a:1\<close> goes and the signal is
  recorded; removing \<open>a:9\<close> changes nothing and records nothing.
\<close>

theorem remove_port_from_channel_first_or_nothing_witness:
  "nchannels (with_ports 0 [''a:1'', ''a:2'', ''a:1''] (example_out ([] :: signal list))) = Inr 2
   \<and> (0::nat) < 2
   \<and> ''a:1'' \<in> set (ports (m_channel (with_ports 0 [''a:1'', ''a:2'', ''a:1''] (example_out ([] :: signal list))) ! 0))
   \<and> remove_port_from_channel record_signal 0 ''a:1''
        (with_ports 0 [''a:1'', ''a:2'', ''a:1''] (example_out ([] :: signal list)))
       = Inr (with_ports 0 [''a:2'', ''a:1''] (example_out [PortsChanged 0]))
   \<and> ''a:9'' \<notin> set (ports (m_channel (with_ports 0 [''a:1'', ''a:2'', ''a:1''] (example_out ([] :: signal list))) ! 0))
   \<and> remove_port_from_channel record_signal 0 ''a:9''
        (with_ports 0 [''a:1'', ''a:2'', ''a:1''] (example_out ([] :: signal list)))
       = Inr (with_ports 0 [''a:1'', ''a:2'', ''a:1''] (example_out ([] :: signal list)))"
proof -
  let ?b = "with_ports 0 [''a:1'', ''a:2'', ''a:1''] (example_out ([] :: signal list))"
  have n: "nchannels ?b = Inr 2" and c: "(0::nat) < 2"
    by (simp_all add: Bundle_eval)
  have p: "ports (m_channel ?b ! 0) = [''a:1'', ''a:2'', ''a:1'']"
    by (simp add: Bundle_eval)
  from remove_port_from_channel_first_or_nothing [OF n c, of "''a:9''" record_signal] p
  have a: "remove_port_from_channel record_signal 0 ''a:9'' ?b = Inr ?b"
    by simp
  from remove_port_from_channel_first_or_nothing [OF n c, of "''a:1''" record_signal] p
  obtain pre post where
    s: "[''a:1'', ''a:2'', ''a:1''] = pre @ ''a:1'' # post" "''a:1'' \<notin> set pre"
    and r: "remove_port_from_channel record_signal 0 ''a:1'' ?b =
      record_signal (PortsChanged 0) (with_ports 0 (pre @ post) ?b)"
    by auto
  from s have "pre = []" by (cases pre) auto
  with s have "post = [''a:2'', ''a:1'']" by simp
  with r \<open>pre = []\<close> have e: "remove_port_from_channel record_signal 0 ''a:1'' ?b =
      Inr (with_ports 0 [''a:2'', ''a:1''] (example_out [PortsChanged 0]))"
    by (simp add: Bundle_eval)
  have m: "''a:1'' \<in> set (ports (m_channel ?b ! 0))" "''a:9'' \<notin> set (ports (m_channel ?b ! 0))"
    by (simp_all add: p)
  from n c m e a show ?thesis by (intro conjI)
qed

lemma add_port_emits:
  assumes "nchannels b = Inr n" "ch < n" "has_colon portname"
  shows "add_port_to_channel slot ch portname b =
     slot (PortsChanged ch) (with_ports ch (ports (m_channel b ! ch) @ [portname]) b)"
proof -
  from assms(1) have f: "\<not> m_channel_mutex b" by (simp add: nchannels_Inr_iff)
  show ?thesis
    using assms f
    by (simp add: add_port_to_channel_def lock_def Let_def relock with_ports_def)
qed

lemma set_port_emits:
  assumes "nchannels b = Inr n" "ch < n" "has_colon portname"
  shows "set_port slot ch portname b = slot (PortsChanged ch) (with_ports ch [portname] b)"
proof -
  from assms(1) have f: "\<not> m_channel_mutex b" by (simp add: nchannels_Inr_iff)
  show ?thesis
    using assms f
    by (simp add: set_port_def lock_def Let_def relock with_ports_def)
qed

lemma remove_port_emits:
  assumes "nchannels b = Inr n" "ch < n" "portname \<in> set (ports (m_channel b ! ch))"
  shows "remove_port_from_channel slot ch portname b =
     slot (PortsChanged ch) (with_ports ch (remove1 portname (ports (m_channel b ! ch))) b)"
proof -
  from assms(3) obtain pre post where
    s: "ports (m_channel b ! ch) = pre @ portname # post" "portname \<notin> set pre"
    by (auto dest: split_list_first)
  then have "remove1 portname (ports (m_channel b ! ch)) = pre @ post"
    by (simp add: remove1_append)
  with remove_port_present [OF assms(1,2) s] show ?thesis by simp
qed

lemma with_ports_free:
  assumes "nchannels b = Inr n" "ch < n"
  shows "\<not> m_channel_mutex (with_ports ch pl b)"
    and "nchannels (with_ports ch pl b) = Inr n"
    and "channel_ports ch (with_ports ch pl b) = Inr pl"
proof -
  from assms show f: "\<not> m_channel_mutex (with_ports ch pl b)"
    and n: "nchannels (with_ports ch pl b) = Inr n"
    by (simp_all add: nchannels_Inr_iff with_ports_def)
  from assms have l: "ch < length (m_channel b)" by (simp add: nchannels_Inr_iff)
  from channel_ports_valid [OF n assms(2)] l
  show "channel_ports ch (with_ports ch pl b) = Inr pl"
    by (simp add: with_ports_def)
qed

text \<open>
  The observer that asks for the ports again receives the list it is handed; had the
  mutex still been held, its call would never have returned.
\<close>

lemma requery_after_update:
  assumes "nchannels b = Inr n" "ch < n"
  shows "requery_ports (PortsChanged ch) (with_ports ch pl b)
    = Inr ((with_ports ch pl b)\<lparr>observers := observers b @ [pl]\<rparr>)"
  using with_ports_free(3) [OF assms, of pl]
  by (simp add: requery_ports_def with_ports_def)

lemma requery_locked: "m_channel_mutex b \<Longrightarrow> requery_ports (PortsChanged ch) b = Inl Deadlock"
  by (simp add: requery_ports_def channel_ports_def nchannels_def lock_def)

text \<open>
  Whatever the arguments and the state: each of the three operations either fails before
  any emission (an assertion, or a mutex that is already held), or returns without one
  (\<open>remove_port_from_channel\<close> of an absent port), or ends with the slot called on a
  state whose mutex is free.
\<close>

lemma emission_only_unlocked:
  "(\<exists>e. add_port_to_channel slot ch portname b = Inl e)
     \<or> (\<exists>b'. \<not> m_channel_mutex b' \<and> add_port_to_channel slot ch portname b = slot (PortsChanged ch) b')"
  "(\<exists>e. set_port slot ch portname b = Inl e)
     \<or> (\<exists>b'. \<not> m_channel_mutex b' \<and> set_port slot ch portname b = slot (PortsChanged ch) b')"
  "(\<exists>e. remove_port_from_channel slot ch portname b = Inl e)
     \<or> remove_port_from_channel slot ch portname b = Inr b
     \<or> (\<exists>b'. \<not> m_channel_mutex b'
            \<and> remove_port_from_channel slot ch portname b = slot (PortsChanged ch) b')"
proof -
  show "(\<exists>e. add_port_to_channel slot ch portname b = Inl e)
     \<or> (\<exists>b'. \<not> m_channel_mutex b' \<and> add_port_to_channel slot ch portname b = slot (PortsChanged ch) b')"
  proof (cases "\<exists>n. nchannels b = Inr n \<and> ch < n \<and> has_colon portname")
    case True
    then obtain n where "nchannels b = Inr n" "ch < n" "has_colon portname" by blast
    from add_port_emits [OF this] with_ports_free(1) [OF this(1,2)] show ?thesis by blast
  next
    case False
    then show ?thesis
      by (auto simp add: add_port_to_channel_def nchannels_def lock_def split: if_splits)
  qed
  show "(\<exists>e. set_port slot ch portname b = Inl e)
     \<or> (\<exists>b'. \<not> m_channel_mutex b' \<and> set_port slot ch portname b = slot (PortsChanged ch) b')"
  proof (cases "\<exists>n. nchannels b = Inr n \<and> ch < n \<and> has_colon portname")
    case True
    then obtain n where "nchannels b = Inr n" "ch < n" "has_colon portname" by blast
    from set_port_emits [OF this] with_ports_free(1) [OF this(1,2)] show ?thesis by blast
  next
    case False
    then show ?thesis
      by (auto simp add: set_port_def nchannels_def lock_def split: if_splits)
  qed
  show "(\<exists>e. remove_port_from_channel slot ch portname b = Inl e)
     \<or> remove_port_from_channel slot ch portname b = Inr b
     \<or> (\<exists>b'. \<not> m_channel_mutex b'
            \<and> remove_port_from_channel slot ch portname b = slot (PortsChanged ch) b')"
  proof (cases "\<exists>n. nchannels b = Inr n \<and> ch < n")
    case True
    then obtain n where n: "nchannels b = Inr n" "ch < n" by blast
    show ?thesis
    proof (cases "portname \<in> set (ports (m_channel b ! ch))")
      case True
      from remove_port_emits [OF n True] with_ports_free(1) [OF n] show ?thesis by blast
    next
      case False
      from remove_port_absent [OF n False] show ?thesis by blast
    qed
  next
    case False
    then show ?thesis
      by (auto simp add: remove_port_from_channel_def nchannels_def lock_def split: if_splits)
  qed
qed

text \<open>
  C9. \<open>add_port_to_channel\<close>, \<open>set_port\<close> and \<open>remove_port_from_channel\<close> call
  the slot of \<open>PortsChanged\<close> last, on the bundle as it is after the change, with the
  mutex released: whatever the slot is, the operation's result is the slot's result on
  that state, in which the mutex is free and \<open>channel_ports\<close> for the channel answers
  with the new port list. (One thread: what other threads do between the release and
  the emission is outside this model.)
\<close>

theorem ports_changed_emitted_after_unlock:
  assumes "nchannels b = Inr n" "ch < n" "has_colon portname"
  shows "add_port_to_channel slot ch portname b =
           slot (PortsChanged ch) (with_ports ch (ports (m_channel b ! ch) @ [portname]) b)
     \<and> set_port slot ch portname b = slot (PortsChanged ch) (with_ports ch [portname] b)
     \<and> (portname \<in> set (ports (m_channel b ! ch)) \<longrightarrow>
          remove_port_from_channel slot ch portname b =
            slot (PortsChanged ch)
              (with_ports ch (remove1 portname (ports (m_channel b ! ch))) b))
     \<and> \<not> m_channel_mutex (with_ports ch pl b)
     \<and> channel_ports ch (with_ports ch pl b) = Inr pl"
  using add_port_emits [OF assms] set_port_emits [OF assms] remove_port_emits [OF assms(1,2)]
    with_ports_free(1,3) [OF assms(1,2)]
  by blast

text \<open>
  With the observer that asks again: after each of the three operations it has seen the
  port list as changed.
\<close>

theorem ports_changed_emitted_after_unlock_witness:
  "nchannels (example_out ([] :: PortList list)) = Inr 2 \<and> (0::nat) < 2
   \<and> has_colon ''a:2''
   \<and> add_port_to_channel requery_ports 0 ''a:2'' (example_out [])
       = Inr (with_ports 0 [''a:1'', ''a:2'', ''a:2''] (example_out [[''a:1'', ''a:2'', ''a:2'']]))
   \<and> set_port requery_ports 0 ''a:2'' (example_out [])
       = Inr (with_ports 0 [''a:2''] (example_out [[''a:2'']]))
   \<and> ''a:2'' \<in> set (ports (m_channel (example_out ([] :: PortList list)) ! 0))
   \<and> remove_port_from_channel requery_ports 0 ''a:2'' (example_out [])
       = Inr (with_ports 0 [''a:1''] (example_out [[''a:1'']]))
   \<and> \<not> m_channel_mutex (with_ports 0 [''a:1''] (example_out ([] :: PortList list)))
   \<and> channel_ports 0 (with_ports 0 [''a:1''] (example_out ([] :: PortList list))) = Inr [''a:1'']"
proof -
  let ?b = "example_out ([] :: PortList list)"
  have n: "nchannels ?b = Inr 2" and c: "(0::nat) < 2" and h: "has_colon ''a:2''"
    by (simp_all add: Bundle_eval)
  have p: "ports (m_channel ?b ! 0) = [''a:1'', ''a:2'']"
    by (simp add: Bundle_eval)
  then have m: "''a:2'' \<in> set (ports (m_channel ?b ! 0))" by simp
  note t = ports_changed_emitted_after_unlock [OF n c h, of requery_ports "[''a:1'']"]
  have u: "requery_ports (PortsChanged 0) (with_ports 0 pl ?b)
      = Inr (with_ports 0 pl (example_out [pl]))" for pl
    using requery_after_update [OF n c, of pl] by (simp add: with_ports_def example_out_def)
  from t p have "add_port_to_channel requery_ports 0 ''a:2'' ?b =
      requery_ports (PortsChanged 0) (with_ports 0 [''a:1'', ''a:2'', ''a:2''] ?b)"
    by simp
  then have a: "add_port_to_channel requery_ports 0 ''a:2'' ?b
      = Inr (with_ports 0 [''a:1'', ''a:2'', ''a:2''] (example_out [[''a:1'', ''a:2'', ''a:2'']]))"
    by (simp only: u)
  from t have "set_port requery_ports 0 ''a:2'' ?b =
      requery_ports (PortsChanged 0) (with_ports 0 [''a:2''] ?b)"
    by simp
  then have s: "set_port requery_ports 0 ''a:2'' ?b
      = Inr (with_ports 0 [''a:2''] (example_out [[''a:2'']]))"
    by (simp only: u)
  from t m p have "remove_port_from_channel requery_ports 0 ''a:2'' ?b =
      requery_ports (PortsChanged 0) (with_ports 0 [''a:1''] ?b)"
    by simp
  then have r: "remove_port_from_channel requery_ports 0 ''a:2'' ?b
      = Inr (with_ports 0 [''a:1''] (example_out [[''a:1'']]))"
    by (simp only: u)
  from t have f: "\<not> m_channel_mutex (with_ports 0 [''a:1''] ?b)"
    and q: "channel_ports 0 (with_ports 0 [''a:1''] ?b) = Inr [''a:1'']"
    by simp_all
  from n c h a s m r f q show ?thesis by (intro conjI)
qed

subsection \<open>Channels\<close>

lemma add_channel_emits:
  assumes "\<not> m_channel_mutex b"
  shows "add_channel slot n b =
     slot ConfigurationChanged (b\<lparr>m_channel := m_channel b @ [\<lparr>name = n, ports = []\<rparr>]\<rparr>)"
  using assms by (simp add: add_channel_def lock_def Let_def relock)

lemma remove_channel_silent:
  "remove_channel ch b = Inr b' \<Longrightarrow> observers b' = observers b"
  by (auto simp add: remove_channel_def nchannels_def lock_def unlock_def
      split: if_splits sum.splits)

lemma remove_channels_silent:
  "remove_channels b = Inr b' \<Longrightarrow> observers b' = observers b"
  by (auto simp add: remove_channels_def lock_def unlock_def split: if_splits)

text \<open>
  C5. Adding a channel and removing channels are all claimed to emit
  \<open>ConfigurationChanged\<close>. \<open>add_channel\<close> does. \<open>remove_channel\<close> and
  \<open>remove_channels\<close> change the channels and return: an observer that records every
  signal has recorded none.
\<close>

theorem remove_channel_emits_nothing:
  "add_channel record_signal ''x'' (example_out [])
     = Inr ((example_out [ConfigurationChanged])
             \<lparr>m_channel := m_channel (example_out []) @ [\<lparr>name = ''x'', ports = []\<rparr>]\<rparr>)
   \<and> remove_channel 0 (example_out ([] :: signal list))
     = Inr ((example_out [])\<lparr>m_channel := [\<lparr>name = ''R'', ports = [''a:3'']\<rparr>]\<rparr>)
   \<and> remove_channels (example_out ([] :: signal list))
     = Inr ((example_out [])\<lparr>m_channel := []\<rparr>)"
  by (simp add: add_channel_def remove_channel_def remove_channels_def Bundle_eval)

end
